theory Spec2Isabelle
  imports Main "HOL-Library.Sublist"
begin

section \<open>The chat application of labs/day-5/4-streamit.py\<close>

text \<open>
  The file is a Streamlit script: it is executed from top to bottom once per user
  interaction. What survives from one execution to the next is
  \<^item> \<open>st.session_state.messages\<close>, the transcript of the session,
  \<^item> the store of \<open>@st.cache_resource\<close>, which keeps the value returned by \<open>setup_agent\<close>,
  \<^item> the process environment (\<open>os.environ["OPENAI_API_KEY"]\<close>).
  The widgets (\<open>st.text_input\<close>, \<open>st.chat_input\<close>), the constructors called in the body of
  \<open>setup_agent\<close> (which may raise) and \<open>agent_executor.invoke\<close> belong to external libraries;
  what they return or raise in one execution is an input of that execution.
  The page decoration of lines 11-48 and 119-136 changes no state and is left out.
\<close>

subsection \<open>Values\<close>

text \<open>A transcript entry, the dict \<open>{"role": ..., "content": ...}\<close>.\<close>

record message =
  role :: string
  content :: string

text \<open>
  A raised object with the text \<open>str(e)\<close>. \<open>Exception s\<close> is an instance of the class
  \<open>Exception\<close>; \<open>BaseException s\<close> is an instance of \<open>BaseException\<close> only
  (\<open>KeyboardInterrupt\<close>, \<open>SystemExit\<close>, ...), which \<open>except Exception\<close> does not catch.
\<close>

datatype py_exception = Exception string | BaseException string

fun isinstance_Exception :: "py_exception \<Rightarrow> bool" where
  "isinstance_Exception (Exception s) = True"
| "isinstance_Exception (BaseException s) = False"

fun str_of :: "py_exception \<Rightarrow> string" where
  "str_of (Exception s) = s"
| "str_of (BaseException s) = s"

text \<open>The dict returned by \<open>agent_executor.invoke\<close>, and the outcome of the call.\<close>

type_synonym response = "string \<rightharpoonup> string"

datatype invoke_result = Returns response | Raises py_exception

text \<open>Python truth of a widget value: \<open>None\<close> and the empty string are falsy.\<close>

definition falsy :: "string option \<Rightarrow> bool" where
  "falsy v = (case v of None \<Rightarrow> True | Some s \<Rightarrow> s = [])"

subsection \<open>setup_agent (lines 52-113)\<close>

record llm =
  temperature :: int

record prompt_template =
  template :: "string list"

text \<open>
  Modelled from the spec: the tools and the function \<open>load_tools\<close> of the agent library,
  whose code is not in the repository. Sections 2 and 4.2 of the spec: the registry has
  two fixed entries, a web-search lookup and a math-evaluation helper (section 9 calls the
  set \<open>{Search, Math}\<close>). The comments of lines 66-67 say which identifier stands for
  which: \<open>ddg-search\<close> for the web search, \<open>llm-math\<close> for the mathematics. \<open>load_tools\<close>
  gives one tool per identifier, in the order of the identifiers, and raises at the first
  identifier that stands for neither. The names under which the library exposes the two
  tools to the model are in neither the source nor the spec; they are a parameter where
  they are needed.
\<close>

datatype tool = Search | Math

fun load_tools :: "string list \<Rightarrow> llm \<Rightarrow> py_exception + tool list" where
  "load_tools [] l = Inr []"
| "load_tools (n # ns) l =
    (if n = ''ddg-search'' then
       (case load_tools ns l of Inl e \<Rightarrow> Inl e | Inr ts \<Rightarrow> Inr (Search # ts))
     else if n = ''llm-math'' then
       (case load_tools ns l of Inl e \<Rightarrow> Inl e | Inr ts \<Rightarrow> Inr (Math # ts))
     else Inl (Exception (''Got unknown tool '' @ n)))"

record react_agent =
  agent_llm :: llm
  agent_tools :: "tool list"
  agent_prompt :: prompt_template

record agent_executor =
  agent :: react_agent
  tools :: "tool list"
  verbose :: bool
  handle_parsing_errors :: bool
  max_iterations :: nat

text \<open>
  What an execution shows and which calls it makes, in order. \<open>CallSetupAgent r\<close>: the body
  of \<open>setup_agent\<close> was executed (\<open>r = Some e\<close>: it raised \<open>e\<close>). \<open>SetupAgentReturned ex\<close>:
  the call \<open>setup_agent()\<close> of line 148 returned \<open>ex\<close>, which is bound to the variable
  \<open>agent_executor\<close> for the rest of the execution. \<open>CallInvoke p\<close>: \<open>agent_executor.invoke\<close>
  was called with the input \<open>p\<close>.
\<close>

datatype event =
    StInfo string
  | StError string
  | StChatMessage string
  | StMarkdown string
  | StSpinner string
  | CallSetupAgent "py_exception option"
  | SetupAgentReturned agent_executor
  | CallInvoke string

text \<open>The string of lines 73-93, split at its line breaks.\<close>

definition template_lines :: "string list" where
  "template_lines =
    ['''',
     ''    Answer the following questions as best you can. You have access to the following tools:'',
     '''',
     ''    {tools}'',
     '''',
     ''    Use the following format:'',
     '''',
     ''    Question: the input question you must answer'',
     ''    Thought: you should always think about what to do'',
     ''    Action: the action to take, should be one of [{tool_names}]'',
     ''    Action Input: the input to the action'',
     ''    Observation: the result of the action'',
     ''    ... (this Thought/Action/Action Input/Observation can repeat N times)'',
     ''    Thought: I now know the final answer'',
     ''    Final Answer: the final answer to the original input question'',
     '''',
     ''    Begin!'',
     '''',
     ''    Question: {input}'',
     ''    Thought:{agent_scratchpad}'',
     ''    '']"

text \<open>
  The body of \<open>setup_agent\<close> when the constructors \<open>OpenAI\<close>, \<open>PromptTemplate.from_template\<close>,
  \<open>create_react_agent\<close> and \<open>AgentExecutor\<close> do not raise.
\<close>

definition setup_agent :: "py_exception + agent_executor" where
  "setup_agent =
    (let llm0 = \<lparr>temperature = 0\<rparr>
     in case load_tools [''ddg-search'', ''llm-math''] llm0 of
          Inl e \<Rightarrow> Inl e
        | Inr tools0 \<Rightarrow>
            (let prompt0 = \<lparr>template = template_lines\<rparr>;
                 agent0 = \<lparr>agent_llm = llm0, agent_tools = tools0, agent_prompt = prompt0\<rparr>
             in Inr \<lparr>agent = agent0, tools = tools0, verbose = True,
                     handle_parsing_errors = True, max_iterations = 5\<rparr>))"

subsection \<open>The chat input handler (lines 165-187), statement by statement\<close>

text \<open>
  A program point of the handler carries the local variable that is live there:
  the value of \<open>st.chat_input\<close> at line 165, \<open>prompt\<close> at lines 167-177, \<open>response\<close> at
  line 179, \<open>final_answer\<close> at lines 180-182, \<open>e\<close> at line 185 and \<open>error_message\<close> at
  lines 186-187. \<open>Returned\<close>: control has left the \<open>if\<close> statement. \<open>Propagated e\<close>: the
  exception \<open>e\<close> has left the handler uncaught.
\<close>

datatype pc =
    L165 "string option"
  | L167 string
  | L168 string
  | L177 string
  | L179 response
  | L180 string
  | L182 string
  | L185 py_exception
  | L186 string
  | L187 string
  | Returned
  | Propagated py_exception

record frame =
  pc :: pc
  messages :: "message list"
  shown :: "event list"

fun terminal :: "pc \<Rightarrow> bool" where
  "terminal Returned = True"
| "terminal (Propagated e) = True"
| "terminal p = False"

text \<open>
  One statement. The first argument is what \<open>agent_executor.invoke\<close> does when it is
  called at line 177. The \<open>try\<close> of line 175 covers lines 177-182; its handler is
  \<open>except Exception\<close>.
\<close>

definition step :: "invoke_result \<Rightarrow> frame \<Rightarrow> frame" where
  "step oc f =
    (case pc f of
       L165 v \<Rightarrow>
         (case v of
            None \<Rightarrow> f\<lparr>pc := Returned\<rparr>
          | Some p \<Rightarrow> if p = [] then f\<lparr>pc := Returned\<rparr> else f\<lparr>pc := L167 p\<rparr>)
     | L167 p \<Rightarrow>
         f\<lparr>pc := L168 p, messages := messages f @ [\<lparr>role = ''user'', content = p\<rparr>]\<rparr>
     | L168 p \<Rightarrow>
         f\<lparr>pc := L177 p, shown := shown f @ [StChatMessage ''user'', StMarkdown p]\<rparr>
     | L177 p \<Rightarrow>
         (let sh = shown f @ [StChatMessage ''assistant'', StSpinner ''Thinking...'', CallInvoke p]
          in case oc of
               Returns r \<Rightarrow> f\<lparr>pc := L179 r, shown := sh\<rparr>
             | Raises e \<Rightarrow>
                 if isinstance_Exception e then f\<lparr>pc := L185 e, shown := sh\<rparr>
                 else f\<lparr>pc := Propagated e, shown := sh\<rparr>)
     | L179 r \<Rightarrow>
         f\<lparr>pc := L180 (case r ''output'' of
                         None \<Rightarrow> ''Sorry, I encountered an error.''
                       | Some a \<Rightarrow> a)\<rparr>
     | L180 a \<Rightarrow> f\<lparr>pc := L182 a, shown := shown f @ [StMarkdown a]\<rparr>
     | L182 a \<Rightarrow>
         f\<lparr>pc := Returned, messages := messages f @ [\<lparr>role = ''assistant'', content = a\<rparr>]\<rparr>
     | L185 e \<Rightarrow> f\<lparr>pc := L186 (''An error occurred: '' @ str_of e @ ''. Please try again.'')\<rparr>
     | L186 m \<Rightarrow> f\<lparr>pc := L187 m, shown := shown f @ [StError m]\<rparr>
     | L187 m \<Rightarrow>
         f\<lparr>pc := Returned, messages := messages f @ [\<lparr>role = ''assistant'', content = m\<rparr>]\<rparr>
     | Returned \<Rightarrow> f
     | Propagated e \<Rightarrow> f)"

text \<open>The number of statements that can still follow a program point.\<close>

fun rank :: "pc \<Rightarrow> nat" where
  "rank (L165 v) = 8"
| "rank (L167 p) = 7"
| "rank (L168 p) = 6"
| "rank (L177 p) = 5"
| "rank (L179 r) = 3"
| "rank (L180 a) = 2"
| "rank (L182 a) = 1"
| "rank (L185 e) = 3"
| "rank (L186 m) = 2"
| "rank (L187 m) = 1"
| "rank Returned = 0"
| "rank (Propagated e) = 0"

text \<open>The handler: statements are executed until control leaves it.\<close>

function run :: "invoke_result \<Rightarrow> frame \<Rightarrow> frame" where
  "run oc f = (if terminal (pc f) then f else run oc (step oc f))"
  by pat_completeness auto
termination
proof (relation "measure (\<lambda>(oc, f). rank (pc f))")
  show "wf (measure (\<lambda>(oc, f). rank (pc f)))"
    by simp
next
  fix oc :: invoke_result and f :: frame
  assume "\<not> terminal (pc f)"
  then have "rank (pc (step oc f)) < rank (pc f)"
    by (cases "pc f") (auto simp: step_def Let_def split: option.splits invoke_result.splits)
  then show "((oc, step oc f), (oc, f)) \<in> measure (\<lambda>(oc, f). rank (pc f))"
    by simp
qed

declare run.simps [simp del]

subsection \<open>One execution of the script (lines 139-187)\<close>

text \<open>
  \<open>session_state_messages = None\<close>: the key \<open>"messages"\<close> is not in \<open>st.session_state\<close>.
  \<open>cache_resource\<close>: the value \<open>@st.cache_resource\<close> holds for \<open>setup_agent\<close>, if any.
\<close>

record world =
  session_state_messages :: "message list option"
  cache_resource :: "agent_executor option"
  environ_OPENAI_API_KEY :: "string option"

text \<open>
  What the outside supplies during one execution: the value of the key field, what the
  library constructors in the body of \<open>setup_agent\<close> do if it is executed (\<open>Some e\<close>: one
  of them raises \<open>e\<close>), the value of the chat field, and what \<open>agent_executor.invoke\<close> does if it is called.
\<close>

record run_input =
  openai_api_key :: "string option"
  setup_agent_raises :: "py_exception option"
  chat_input :: "string option"
  invoke_outcome :: invoke_result

text \<open>
  How an execution ends: at the end of the file, at \<open>st.stop()\<close> of line 141, at
  \<open>st.stop()\<close> of line 151, or with an exception that nothing in the file catches
  (raised by line 144, by \<open>setup_agent()\<close> or by \<open>agent_executor.invoke\<close>).
\<close>

datatype status = Completed | StoppedNoKey | StoppedInitFailed | Uncaught py_exception

text \<open>
  The call \<open>setup_agent()\<close> through \<open>@st.cache_resource\<close>: a stored value is returned
  without executing the body; otherwise the body is executed, and its value is stored
  when it returns. The first argument is what the library constructors in the body do
  (\<open>Some e\<close>: one of them raises \<open>e\<close>).
\<close>

definition setup_agent_cached ::
  "py_exception option \<Rightarrow> world \<Rightarrow> (py_exception + agent_executor) \<times> world \<times> event list" where
  "setup_agent_cached body_raises w =
    (case cache_resource w of
       Some ex \<Rightarrow> (Inr ex, w, [SetupAgentReturned ex])
     | None \<Rightarrow>
         (case body_raises of
            Some e \<Rightarrow> (Inl e, w, [CallSetupAgent (Some e)])
          | None \<Rightarrow>
              (case setup_agent of
                 Inl e \<Rightarrow> (Inl e, w, [CallSetupAgent (Some e)])
               | Inr ex \<Rightarrow>
                   (Inr ex, w\<lparr>cache_resource := Some ex\<rparr>,
                    [CallSetupAgent None, SetupAgentReturned ex]))))"

text \<open>Lines 160-162.\<close>

definition display_history :: "message list \<Rightarrow> event list" where
  "display_history ms = concat (map (\<lambda>m. [StChatMessage (role m), StMarkdown (content m)]) ms)"

text \<open>
  Line 144: \<open>os.environ\<close> refuses a value that holds a NUL character with \<open>ValueError\<close>;
  the assignment is outside every \<open>try\<close>.
\<close>

definition embedded_null :: "string option \<Rightarrow> bool" where
  "embedded_null v = (case v of None \<Rightarrow> False | Some s \<Rightarrow> CHR 0x00 \<in> set s)"

fun status_of :: "pc \<Rightarrow> status" where
  "status_of (Propagated e) = Uncaught e"
| "status_of p = Completed"

definition run_script :: "world \<Rightarrow> run_input \<Rightarrow> world \<times> status \<times> event list" where
  "run_script w i =
    (if falsy (openai_api_key i) then
       (w, StoppedNoKey, [StInfo ''Please add your OpenAI API key in the sidebar to continue.''])
     else if embedded_null (openai_api_key i) then
       (w, Uncaught (Exception ''embedded null byte''), [])
     else
       (case setup_agent_cached (setup_agent_raises i)
               (w\<lparr>environ_OPENAI_API_KEY := openai_api_key i\<rparr>) of
          (Inl e, w1, ev) \<Rightarrow>
            if isinstance_Exception e then
              (w1, StoppedInitFailed,
               ev @ [StError (''Failed to initialize the agent. Please check your API key and dependencies. Error: ''
                              @ str_of e)])
            else (w1, Uncaught e, ev)
        | (Inr ex, w1, ev) \<Rightarrow>
            (let ms = (case session_state_messages w1 of None \<Rightarrow> [] | Some ms0 \<Rightarrow> ms0);
                 f = run (invoke_outcome i)
                       \<lparr>pc = L165 (chat_input i), messages = ms, shown = display_history ms\<rparr>
             in (w1\<lparr>session_state_messages := Some (messages f)\<rparr>,
                 status_of (pc f), ev @ shown f))))"

text \<open>A session: the script is executed once per interaction, on the state the last execution left.\<close>

fun run_session :: "world \<Rightarrow> run_input list \<Rightarrow> world \<times> status list \<times> event list" where
  "run_session w [] = (w, [], [])"
| "run_session w (i # is) =
    (case run_script w i of
       (w1, s, ev) \<Rightarrow>
         (case run_session w1 is of
            (w2, ss, evs) \<Rightarrow> (w2, s # ss, ev @ evs)))"

text \<open>The conversation state as a list: an absent key holds no message.\<close>

definition transcript :: "world \<Rightarrow> message list" where
  "transcript w = (case session_state_messages w of None \<Rightarrow> [] | Some ms \<Rightarrow> ms)"

fun is_CallInvoke :: "event \<Rightarrow> bool" where
  "is_CallInvoke (CallInvoke p) = True"
| "is_CallInvoke ev = False"

fun is_SetupAgentReturned :: "event \<Rightarrow> bool" where
  "is_SetupAgentReturned (SetupAgentReturned ex) = True"
| "is_SetupAgentReturned ev = False"

fun is_CallSetupAgent :: "event \<Rightarrow> bool" where
  "is_CallSetupAgent (CallSetupAgent r) = True"
| "is_CallSetupAgent ev = False"

fun is_message_render :: "event \<Rightarrow> bool" where
  "is_message_render (StChatMessage r) = True"
| "is_message_render (StMarkdown t) = True"
| "is_message_render (StError t) = True"
| "is_message_render ev = False"

subsection \<open>The reasoning loop behind agent_executor.invoke\<close>

text \<open>
  Modelled from the spec: the reasoning loop of \<open>AgentExecutor.invoke\<close>. Its code is in the
  agent library, not in this repository; the script only passes it \<open>max_iterations\<close>,
  \<open>handle_parsing_errors\<close> and the tools. The definitions follow section 4.1 of the spec
  (and section 7 for the recovery of an unknown tool): each round asks the model for the next
  step, given the question and the scratchpad; a final answer ends the loop; an action is
  looked up in the registry and its observation is appended to the scratchpad; an
  unparsable step, or an unknown tool, gets a corrective observation when the tolerance
  is enabled and fails otherwise; when the cap is reached the loop ends with a
  best-effort result. The second component of the result counts the rounds.
\<close>

datatype suggestion = FinalAnswer string | Action string string | Unparsable string

datatype loop_error = UnknownToolError string | ParseError string

datatype loop_result = Output string | BestEffort | Failed loop_error

type_synonym scratchpad = "string list"

fun count_round :: "loop_result \<times> nat \<Rightarrow> loop_result \<times> nat" where
  "count_round (r, n) = (r, Suc n)"

fun reasoning_loop ::
  "nat \<Rightarrow> bool \<Rightarrow> (string \<Rightarrow> scratchpad \<Rightarrow> suggestion) \<Rightarrow> (string \<rightharpoonup> (string \<Rightarrow> string)) \<Rightarrow>
   string \<Rightarrow> scratchpad \<Rightarrow> loop_result \<times> nat" where
  "reasoning_loop 0 tol model registry q sp = (BestEffort, 0)"
| "reasoning_loop (Suc k) tol model registry q sp =
    (case model q sp of
       FinalAnswer a \<Rightarrow> (Output a, 1)
     | Action name inp \<Rightarrow>
         (case registry name of
            None \<Rightarrow>
              if tol then
                count_round (reasoning_loop k tol model registry q
                               (sp @ [name, inp, ''unknown tool'']))
              else (Failed (UnknownToolError name), 1)
          | Some tool \<Rightarrow>
              count_round (reasoning_loop k tol model registry q (sp @ [name, inp, tool inp])))
     | Unparsable t \<Rightarrow>
         if tol then
           count_round (reasoning_loop k tol model registry q (sp @ [t, ''could not parse'']))
         else (Failed (ParseError t), 1))"

text \<open>
  The loop with the configuration and the tools of an executor: \<open>tool_name\<close> is the name
  under which the library exposes a tool to the model, \<open>impl\<close> what the tool returns.
\<close>

definition executor_loop ::
  "agent_executor \<Rightarrow> (tool \<Rightarrow> string) \<Rightarrow> (string \<Rightarrow> scratchpad \<Rightarrow> suggestion) \<Rightarrow>
   (tool \<Rightarrow> string \<Rightarrow> string) \<Rightarrow> string \<Rightarrow> loop_result \<times> nat" where
  "executor_loop ex tool_name model impl q =
    reasoning_loop (max_iterations ex) (handle_parsing_errors ex) model
      (\<lambda>name. map_option impl (find (\<lambda>t. tool_name t = name) (tools ex))) q []"

section \<open>Properties\<close>

subsection \<open>The handler as a whole\<close>

lemma run_falsy:
  "falsy v \<Longrightarrow> run oc \<lparr>pc = L165 v, messages = ms, shown = sh\<rparr>
     = \<lparr>pc = Returned, messages = ms, shown = sh\<rparr>"
  by (cases v) (simp_all add: falsy_def run.simps step_def)

lemma run_Returns:
  "p \<noteq> [] \<Longrightarrow> run (Returns r) \<lparr>pc = L165 (Some p), messages = ms, shown = sh\<rparr>
     = \<lparr>pc = Returned,
        messages = ms @ [\<lparr>role = ''user'', content = p\<rparr>,
                         \<lparr>role = ''assistant'',
                          content = (case r ''output'' of
                                       None \<Rightarrow> ''Sorry, I encountered an error.''
                                     | Some a \<Rightarrow> a)\<rparr>],
        shown = sh @ [StChatMessage ''user'', StMarkdown p, StChatMessage ''assistant'',
                      StSpinner ''Thinking...'', CallInvoke p,
                      StMarkdown (case r ''output'' of
                                    None \<Rightarrow> ''Sorry, I encountered an error.''
                                  | Some a \<Rightarrow> a)]\<rparr>"
  by (simp add: run.simps step_def)

lemma run_Raises_Exception:
  "p \<noteq> [] \<Longrightarrow> run (Raises (Exception s)) \<lparr>pc = L165 (Some p), messages = ms, shown = sh\<rparr>
     = \<lparr>pc = Returned,
        messages = ms @ [\<lparr>role = ''user'', content = p\<rparr>,
                         \<lparr>role = ''assistant'',
                          content = ''An error occurred: '' @ s @ ''. Please try again.''\<rparr>],
        shown = sh @ [StChatMessage ''user'', StMarkdown p, StChatMessage ''assistant'',
                      StSpinner ''Thinking...'', CallInvoke p,
                      StError (''An error occurred: '' @ s @ ''. Please try again.'')]\<rparr>"
  by (simp add: run.simps step_def)

lemma run_Raises_BaseException:
  "p \<noteq> [] \<Longrightarrow> run (Raises (BaseException s)) \<lparr>pc = L165 (Some p), messages = ms, shown = sh\<rparr>
     = \<lparr>pc = Propagated (BaseException s),
        messages = ms @ [\<lparr>role = ''user'', content = p\<rparr>],
        shown = sh @ [StChatMessage ''user'', StMarkdown p, StChatMessage ''assistant'',
                      StSpinner ''Thinking...'', CallInvoke p]\<rparr>"
  by (simp add: run.simps step_def)

lemma step_prefix: "prefix (messages f) (messages (step oc f))"
  by (cases "pc f") (auto simp: step_def Let_def split: option.splits invoke_result.splits)

lemma step_shown_prefix: "prefix (shown f) (shown (step oc f))"
  by (cases "pc f") (auto simp: step_def Let_def split: option.splits invoke_result.splits)

lemma run_prefix: "prefix (messages f) (messages (run oc f))"
proof (induction oc f rule: run.induct)
  case (1 oc f)
  show ?case
  proof (cases "terminal (pc f)")
    case True
    then show ?thesis by (simp add: run.simps)
  next
    case False
    have "prefix (messages f) (messages (step oc f))" by (rule step_prefix)
    also have "prefix (messages (step oc f)) (messages (run oc (step oc f)))"
      using 1 False by simp
    finally show ?thesis using False by (subst run.simps) simp
  qed
qed

lemma run_terminal: "terminal (pc (run oc f))"
proof (induction oc f rule: run.induct)
  case (1 oc f)
  then show ?case by (subst run.simps) simp
qed

lemma handler_points:
  fixes p :: string and ms :: "message list"
  defines "u \<equiv> \<lparr>role = ''user'', content = p\<rparr>"
  assumes g: "g = (step oc ^^ n) \<lparr>pc = L165 (Some p), messages = ms, shown = sh\<rparr>"
  shows "(\<forall>v. pc g = L165 v \<longrightarrow> v = Some p \<and> messages g = ms) \<and>
         (\<forall>q. pc g = L167 q \<longrightarrow> q = p \<and> messages g = ms) \<and>
         (\<forall>q. pc g = L168 q \<longrightarrow> q = p \<and> messages g = ms @ [u]) \<and>
         (\<forall>q. pc g = L177 q \<longrightarrow> q = p \<and> messages g = ms @ [u])"
  using g
proof (induction n arbitrary: g)
  case 0
  then show ?case by simp
next
  case (Suc n)
  define h where "h = (step oc ^^ n) \<lparr>pc = L165 (Some p), messages = ms, shown = sh\<rparr>"
  from Suc.IH [OF h_def] have ih:
    "\<And>v. pc h = L165 v \<Longrightarrow> v = Some p \<and> messages h = ms"
    "\<And>q. pc h = L167 q \<Longrightarrow> q = p \<and> messages h = ms"
    "\<And>q. pc h = L168 q \<Longrightarrow> q = p \<and> messages h = ms @ [u]"
    by blast+
  from Suc.prems have g: "g = step oc h"
    by (simp add: h_def)
  show ?case
    unfolding g using ih
    by (cases "pc h")
       (auto simp: step_def Let_def u_def split: option.splits invoke_result.splits if_splits)
qed

subsection \<open>One execution and a session\<close>

lemma step_no_setup:
  "filter is_CallSetupAgent (shown (step oc f)) = filter is_CallSetupAgent (shown f)"
  by (cases "pc f") (auto simp: step_def Let_def split: option.splits invoke_result.splits)

lemma run_no_setup:
  "filter is_CallSetupAgent (shown (run oc f)) = filter is_CallSetupAgent (shown f)"
proof (induction oc f rule: run.induct)
  case (1 oc f)
  show ?case
  proof (cases "terminal (pc f)")
    case True
    then show ?thesis by (simp add: run.simps)
  next
    case False
    then have "run oc f = run oc (step oc f)" by (subst run.simps) simp
    with 1 False show ?thesis by (simp add: step_no_setup)
  qed
qed

lemma step_no_returned:
  "filter is_SetupAgentReturned (shown (step oc f)) = filter is_SetupAgentReturned (shown f)"
  by (cases "pc f") (auto simp: step_def Let_def split: option.splits invoke_result.splits)

lemma run_no_returned:
  "filter is_SetupAgentReturned (shown (run oc f)) = filter is_SetupAgentReturned (shown f)"
proof (induction oc f rule: run.induct)
  case (1 oc f)
  show ?case
  proof (cases "terminal (pc f)")
    case True
    then show ?thesis by (simp add: run.simps)
  next
    case False
    then have "run oc f = run oc (step oc f)" by (subst run.simps) simp
    with 1 False show ?thesis by (simp add: step_no_returned)
  qed
qed

lemma run_prefix_frame:
  "prefix ms (messages (run oc \<lparr>pc = c, messages = ms, shown = sh\<rparr>))"
  using run_prefix [of "\<lparr>pc = c, messages = ms, shown = sh\<rparr>" oc] by simp

lemma display_history_no_setup: "filter is_CallSetupAgent (display_history ms) = []"
  by (induction ms) (simp_all add: display_history_def)

lemma display_history_no_returned: "filter is_SetupAgentReturned (display_history ms) = []"
  by (induction ms) (simp_all add: display_history_def)

lemma handler_no_setup:
  "filter is_CallSetupAgent
     (shown (run oc \<lparr>pc = c, messages = ms, shown = display_history ms\<rparr>)) = []"
  using run_no_setup [of oc "\<lparr>pc = c, messages = ms, shown = display_history ms\<rparr>"]
  by (simp add: display_history_no_setup)

lemma handler_no_returned:
  "filter is_SetupAgentReturned
     (shown (run oc \<lparr>pc = c, messages = ms, shown = display_history ms\<rparr>)) = []"
  using run_no_returned [of oc "\<lparr>pc = c, messages = ms, shown = display_history ms\<rparr>"]
  by (simp add: display_history_no_returned)

lemma no_setup_no_construction:
  "filter is_CallSetupAgent evs = [] \<Longrightarrow> filter (\<lambda>e. e = CallSetupAgent None) evs = []"
  by (auto simp: filter_empty_conv)

lemma filter_at_most_one:
  "filter P xs = [] \<or> filter P xs = [a] \<Longrightarrow> e \<in> set xs \<Longrightarrow> P e \<Longrightarrow> e = a"
  by (induction xs) (auto split: if_splits)

lemma load_tools_two: "load_tools [''ddg-search'', ''llm-math''] l = Inr [Search, Math]"
  by simp

lemma setup_agent_eq:
  "setup_agent =
     Inr \<lparr>agent = \<lparr>agent_llm = \<lparr>temperature = 0\<rparr>, agent_tools = [Search, Math],
                    agent_prompt = \<lparr>template = template_lines\<rparr>\<rparr>,
          tools = [Search, Math], verbose = True, handle_parsing_errors = True,
          max_iterations = 5\<rparr>"
  by (simp add: setup_agent_def Let_def)

lemma setup_agent_tools:
  assumes "setup_agent = Inr ex"
  shows "tools ex = [Search, Math] \<and> agent_tools (agent ex) = [Search, Math]"
proof -
  from assms have "ex = \<lparr>agent = \<lparr>agent_llm = \<lparr>temperature = 0\<rparr>, agent_tools = [Search, Math],
                    agent_prompt = \<lparr>template = template_lines\<rparr>\<rparr>,
          tools = [Search, Math], verbose = True, handle_parsing_errors = True,
          max_iterations = 5\<rparr>"
    by (simp add: setup_agent_eq)
  then show ?thesis by simp
qed

lemma run_script_key_falsy:
  "falsy (openai_api_key i) \<Longrightarrow>
   run_script w i = (w, StoppedNoKey, [StInfo ''Please add your OpenAI API key in the sidebar to continue.''])"
  by (simp add: run_script_def)

lemma run_script_transcript_prefix:
  "prefix (transcript w) (transcript (fst (run_script w i)))"
  by (auto simp: run_script_def transcript_def setup_agent_cached_def setup_agent_eq Let_def
                 run_prefix_frame
           split: option.splits sum.splits prod.splits)

lemma run_script_completed:
  assumes "run_script w i = (w', Completed, ev)" and "\<not> falsy (chat_input i)"
  shows "\<exists>p a. chat_input i = Some p \<and>
           session_state_messages w' =
             Some (transcript w @ [\<lparr>role = ''user'', content = p\<rparr>,
                                   \<lparr>role = ''assistant'', content = a\<rparr>])"
proof -
  from assms(2) obtain p where p: "chat_input i = Some p" "p \<noteq> []"
    by (auto simp: falsy_def split: option.splits)
  show ?thesis
  proof (cases "invoke_outcome i")
    case (Returns r)
    with assms(1) p show ?thesis
      by (auto simp: run_script_def setup_agent_cached_def setup_agent_eq transcript_def Let_def
                     run_Returns
               split: if_splits option.splits)
  next
    case (Raises e)
    with assms(1) p show ?thesis
      by (cases e)
         (auto simp: run_script_def setup_agent_cached_def setup_agent_eq transcript_def Let_def
                     run_Raises_Exception run_Raises_BaseException
               split: if_splits option.splits)
  qed
qed

lemma run_script_cached:
  assumes "cache_resource w = Some ex" and "run_script w i = (w', s, ev)"
  shows "cache_resource w' = Some ex \<and> filter is_CallSetupAgent ev = [] \<and>
         (\<forall>e\<in>set ev. is_SetupAgentReturned e \<longrightarrow> e = SetupAgentReturned ex)"
proof -
  have "filter is_SetupAgentReturned ev = [] \<or>
        filter is_SetupAgentReturned ev = [SetupAgentReturned ex]"
    using assms
    by (auto simp: run_script_def setup_agent_cached_def Let_def handler_no_returned
             split: if_splits)
  then have "\<forall>e\<in>set ev. is_SetupAgentReturned e \<longrightarrow> e = SetupAgentReturned ex"
    using filter_at_most_one [of is_SetupAgentReturned ev "SetupAgentReturned ex"] by blast
  moreover have "cache_resource w' = Some ex \<and> filter is_CallSetupAgent ev = []"
    using assms
    by (auto simp: run_script_def setup_agent_cached_def Let_def handler_no_setup
             split: if_splits)
  ultimately show ?thesis by simp
qed

lemma run_script_uncached:
  assumes "cache_resource w = None" and "run_script w i = (w', s, ev)"
  shows "(cache_resource w' = None \<and> filter (\<lambda>e. e = CallSetupAgent None) ev = [] \<and>
          filter is_SetupAgentReturned ev = []) \<or>
         (\<exists>ex. setup_agent = Inr ex \<and> cache_resource w' = Some ex \<and>
            filter (\<lambda>e. e = CallSetupAgent None) ev = [CallSetupAgent None] \<and>
            filter is_SetupAgentReturned ev = [SetupAgentReturned ex])"
  using assms
  by (auto simp: run_script_def setup_agent_cached_def setup_agent_eq Let_def handler_no_setup
                 handler_no_returned no_setup_no_construction
           split: if_splits option.splits)

lemma run_script_receives:
  assumes "\<not> falsy (openai_api_key i)" and "\<not> embedded_null (openai_api_key i)"
    and "cache_resource w \<noteq> None \<or> setup_agent_raises i = None"
  shows "\<exists>ex. filter is_SetupAgentReturned (snd (snd (run_script w i))) = [SetupAgentReturned ex] \<and>
           cache_resource (fst (run_script w i)) = Some ex \<and>
           (cache_resource w = None \<longrightarrow>
              setup_agent = Inr ex \<and>
              filter is_CallSetupAgent (snd (snd (run_script w i))) = [CallSetupAgent None]) \<and>
           (cache_resource w \<noteq> None \<longrightarrow>
              cache_resource w = Some ex \<and>
              filter is_CallSetupAgent (snd (snd (run_script w i))) = [])"
  using assms
  by (cases "cache_resource w")
     (auto simp: run_script_def setup_agent_cached_def setup_agent_eq Let_def handler_no_setup
                 handler_no_returned)

lemma display_history_no_invoke: "filter is_CallInvoke (display_history ms) = []"
  by (induction ms) (simp_all add: display_history_def)

lemma run_script_falsy_chat:
  assumes "falsy (chat_input i)"
  shows "transcript (fst (run_script w i)) = transcript w \<and>
         filter is_CallInvoke (snd (snd (run_script w i))) = []"
  using assms
  by (auto simp: run_script_def setup_agent_cached_def setup_agent_eq transcript_def Let_def
                 run_falsy
                 display_history_no_invoke
           split: option.splits)

lemma session_roles:
  assumes "run_session w is = (w', ss, evs)"
    and "\<forall>(i, s)\<in>set (zip is ss). \<not> falsy (chat_input i) \<longrightarrow> s = Completed"
  shows "map role (transcript w') =
           map role (transcript w) @
           concat (replicate (length (filter (\<lambda>i. \<not> falsy (chat_input i)) is))
                     [''user'', ''assistant''])"
  using assms
proof (induction "is" arbitrary: w w' ss evs)
  case Nil
  then show ?case by simp
next
  case (Cons i "is")
  obtain w1 s ev where r1: "run_script w i = (w1, s, ev)"
    by (cases "run_script w i") auto
  obtain w2 ss2 evs2 where r2: "run_session w1 is = (w2, ss2, evs2)"
    by (cases "run_session w1 is") auto
  from Cons.prems(1) r1 r2 have eq: "w' = w2" "ss = s # ss2"
    by simp_all
  from eq Cons.prems(2) have s: "\<not> falsy (chat_input i) \<Longrightarrow> s = Completed"
    and ss2: "\<forall>(i, s)\<in>set (zip is ss2). \<not> falsy (chat_input i) \<longrightarrow> s = Completed"
    by simp_all
  have rest: "map role (transcript w2) =
          map role (transcript w1) @
          concat (replicate (length (filter (\<lambda>i. \<not> falsy (chat_input i)) is))
                    [''user'', ''assistant''])"
    by (rule Cons.IH [OF r2 ss2])
  show ?case
  proof (cases "falsy (chat_input i)")
    case True
    from run_script_falsy_chat [OF True, of w] r1 have "transcript w1 = transcript w"
      by simp
    with rest eq True show ?thesis by simp
  next
    case False
    from run_script_completed [OF r1 [unfolded s [OF False]] False]
    have "map role (transcript w1) = map role (transcript w) @ [''user'', ''assistant'']"
      by (auto simp: transcript_def)
    with rest eq False show ?thesis by simp
  qed
qed

lemma session_key_falsy:
  assumes "\<forall>i\<in>set is. falsy (openai_api_key i)"
  shows "run_session w is =
           (w, replicate (length is) StoppedNoKey,
            replicate (length is)
              (StInfo ''Please add your OpenAI API key in the sidebar to continue.''))"
  using assms by (induction "is") (simp_all add: run_script_key_falsy)

lemma run_session_transcript_prefix:
  "prefix (transcript w) (transcript (fst (run_session w is)))"
proof (induction "is" arbitrary: w)
  case Nil
  then show ?case by simp
next
  case (Cons i "is")
  have "prefix (transcript w) (transcript (fst (run_script w i)))"
    by (rule run_script_transcript_prefix)
  also have "prefix (transcript (fst (run_script w i)))
               (transcript (fst (run_session (fst (run_script w i)) is)))"
    by (rule Cons.IH)
  finally show ?case
    by (simp add: split_beta)
qed

lemma session_cached:
  assumes "cache_resource w = Some ex" and "run_session w is = (w', ss, evs)"
  shows "cache_resource w' = Some ex \<and> filter is_CallSetupAgent evs = [] \<and>
         (\<forall>e\<in>set evs. is_SetupAgentReturned e \<longrightarrow> e = SetupAgentReturned ex)"
  using assms
proof (induction "is" arbitrary: w w' ss evs)
  case Nil
  then show ?case by simp
next
  case (Cons i "is")
  obtain w1 s ev where r1: "run_script w i = (w1, s, ev)"
    by (cases "run_script w i") auto
  obtain w2 ss2 evs2 where r2: "run_session w1 is = (w2, ss2, evs2)"
    by (cases "run_session w1 is") auto
  from Cons.prems(2) r1 r2 have eq: "w' = w2" "evs = ev @ evs2"
    by simp_all
  from run_script_cached [OF Cons.prems(1) r1]
  have c1: "cache_resource w1 = Some ex" and e1: "filter is_CallSetupAgent ev = []"
    and e2: "\<forall>e\<in>set ev. is_SetupAgentReturned e \<longrightarrow> e = SetupAgentReturned ex"
    by simp_all
  from Cons.IH [OF c1 r2] e1 e2 eq show ?case
    by auto
qed

lemma session_uncached:
  assumes "cache_resource w = None" and "run_session w is = (w', ss, evs)"
  shows "length (filter (\<lambda>e. e = CallSetupAgent None) evs) \<le> 1 \<and>
         (\<forall>e\<in>set evs. is_SetupAgentReturned e \<longrightarrow>
            (\<exists>ex. e = SetupAgentReturned ex \<and> setup_agent = Inr ex \<and> cache_resource w' = Some ex)) \<and>
         (\<forall>ex. cache_resource w' = Some ex \<longrightarrow> setup_agent = Inr ex)"
  using assms
proof (induction "is" arbitrary: w w' ss evs)
  case Nil
  then show ?case by simp
next
  case (Cons i "is")
  obtain w1 s ev where r1: "run_script w i = (w1, s, ev)"
    by (cases "run_script w i") auto
  obtain w2 ss2 evs2 where r2: "run_session w1 is = (w2, ss2, evs2)"
    by (cases "run_session w1 is") auto
  from Cons.prems(2) r1 r2 have eq: "w' = w2" "evs = ev @ evs2"
    by simp_all
  from run_script_uncached [OF Cons.prems(1) r1] show ?case
  proof (elim disjE conjE exE)
    assume c: "cache_resource w1 = None"
      and e: "filter (\<lambda>e. e = CallSetupAgent None) ev = []"
      and n: "filter is_SetupAgentReturned ev = []"
    from n have "\<forall>e\<in>set ev. \<not> is_SetupAgentReturned e"
      by (simp add: filter_empty_conv)
    with Cons.IH [OF c r2] e eq show ?thesis
      by auto
  next
    fix ex
    assume b: "setup_agent = Inr ex" and c: "cache_resource w1 = Some ex"
      and e: "filter (\<lambda>e. e = CallSetupAgent None) ev = [CallSetupAgent None]"
      and n: "filter is_SetupAgentReturned ev = [SetupAgentReturned ex]"
    from n have ev: "\<forall>e\<in>set ev. is_SetupAgentReturned e \<longrightarrow> e = SetupAgentReturned ex"
      using filter_at_most_one [of is_SetupAgentReturned ev "SetupAgentReturned ex"] by blast
    from session_cached [OF c r2]
    have c2: "cache_resource w2 = Some ex"
      and e2: "filter (\<lambda>e. e = CallSetupAgent None) evs2 = []"
      and n2: "\<forall>e\<in>set evs2. is_SetupAgentReturned e \<longrightarrow> e = SetupAgentReturned ex"
      by (simp_all add: no_setup_no_construction)
    from b c2 e e2 ev n2 eq show ?thesis
      by auto
  qed
qed

lemma session_uncached_returned:
  assumes "cache_resource w = None" and "run_session w is = (w', ss, evs)"
    and "SetupAgentReturned ex \<in> set evs"
  shows "setup_agent = Inr ex \<and> cache_resource w' = Some ex"
proof -
  from session_uncached [OF assms(1,2)] assms(3)
  obtain ex' where "SetupAgentReturned ex = SetupAgentReturned ex'"
    and "setup_agent = Inr ex'" and "cache_resource w' = Some ex'"
    by (metis is_SetupAgentReturned.simps(1))
  then show ?thesis by simp
qed

lemma session_cached_returned:
  assumes "cache_resource w = Some ex" and "run_session w is = (w', ss, evs)"
    and "SetupAgentReturned ex' \<in> set evs"
  shows "ex' = ex"
proof -
  from session_cached [OF assms(1,2)] assms(3)
  have "SetupAgentReturned ex' = SetupAgentReturned ex"
    by (metis is_SetupAgentReturned.simps(1))
  then show ?thesis by simp
qed

subsection \<open>The reasoning loop\<close>

lemma snd_count_round: "snd (count_round x) = Suc (snd x)"
  by (cases x) simp

lemma reasoning_loop_rounds: "snd (reasoning_loop k tol model registry q sp) \<le> k"
  by (induction k arbitrary: sp)
     (auto simp: snd_count_round split: suggestion.splits option.splits)

lemma reasoning_loop_cap:
  assumes "tol" and "\<forall>sp a. model q sp \<noteq> FinalAnswer a"
  shows "reasoning_loop k tol model registry q sp = (BestEffort, k)"
  using assms
  by (induction k arbitrary: sp) (auto split: suggestion.splits option.splits)

section \<open>The claims\<close>

text \<open>
  C1. In a session that starts with an empty transcript, let N be the number of
  executions of the script that receive a non-empty submission, each of them running to
  the end of the file (the executor call returned, or raised an exception that the
  handler caught); executions without a submission may lie between them. Then the
  transcript holds exactly 2N messages and their roles are user, assistant, user,
  assistant, ...
\<close>

theorem transcript_after_submissions:
  assumes "transcript w = []"
    and "run_session w is = (w', ss, evs)"
    and "\<forall>(i, s)\<in>set (zip is ss). \<not> falsy (chat_input i) \<longrightarrow> s = Completed"
    and "N = length (filter (\<lambda>i. \<not> falsy (chat_input i)) is)"
  shows "length (transcript w') = 2 * N \<and>
         map role (transcript w') = concat (replicate N [''user'', ''assistant''])"
proof -
  from session_roles [OF assms(2,3)] assms(1,4)
  have roles: "map role (transcript w') = concat (replicate N [''user'', ''assistant''])"
    by simp
  have "length (transcript w') = length (map role (transcript w'))"
    by simp
  also have "\<dots> = length (concat (replicate N [''user'', ''assistant'']))"
    by (simp only: roles)
  also have "\<dots> = 2 * N"
    by (induction N) simp_all
  finally show ?thesis using roles by simp
qed

theorem transcript_after_submissions_witness:
  "map role (transcript (fst (run_session
     \<lparr>session_state_messages = None, cache_resource = None, environ_OPENAI_API_KEY = None\<rparr>
     [\<lparr>openai_api_key = Some ''sk-1'', setup_agent_raises = None,
       chat_input = None, invoke_outcome = Returns Map.empty\<rparr>,
      \<lparr>openai_api_key = Some ''sk-1'', setup_agent_raises = None,
       chat_input = Some ''What is 12 * 7?'',
       invoke_outcome = Returns [''output'' \<mapsto> ''84'']\<rparr>,
      \<lparr>openai_api_key = Some ''sk-1'', setup_agent_raises = None,
       chat_input = Some ''news?'',
       invoke_outcome = Raises (Exception ''timeout'')\<rparr>])))
     = [''user'', ''assistant'', ''user'', ''assistant'']"
  (is "map role (transcript (fst (run_session ?w ?is))) = _")
proof -
  obtain w' ss evs where r: "run_session ?w ?is = (w', ss, evs)"
    by (cases "run_session ?w ?is") auto
  then have "ss = [Completed, Completed, Completed]"
    by (auto simp: run_script_def setup_agent_cached_def setup_agent_eq falsy_def
                   embedded_null_def run_falsy run_Returns
                   run_Raises_Exception)
  then have c: "\<forall>(i, s)\<in>set (zip ?is ss). \<not> falsy (chat_input i) \<longrightarrow> s = Completed"
    by simp
  have t: "transcript ?w = []"
    by (simp add: transcript_def)
  have n: "2 = length (filter (\<lambda>i. \<not> falsy (chat_input i)) ?is)"
    by (simp add: falsy_def)
  from transcript_after_submissions [OF t r c n] r show ?thesis
    by (simp add: eval_nat_numeral)
qed

text \<open>
  C2, as the code has it. When \<open>agent_executor.invoke\<close> raises an instance of \<open>Exception\<close>
  while a non-empty submission is handled, the handler catches it and returns normally;
  the transcript is the one before the submission, followed by the user message and by
  exactly one assistant message with the text "An error occurred: ... Please try again.".
\<close>

theorem invoke_Exception_caught:
  assumes "p \<noteq> []" and "isinstance_Exception e"
  shows "run (Raises e) \<lparr>pc = L165 (Some p), messages = ms, shown = sh\<rparr> =
           \<lparr>pc = Returned,
            messages = ms @ [\<lparr>role = ''user'', content = p\<rparr>,
                             \<lparr>role = ''assistant'',
                              content = ''An error occurred: '' @ str_of e @ ''. Please try again.''\<rparr>],
            shown = sh @ [StChatMessage ''user'', StMarkdown p, StChatMessage ''assistant'',
                          StSpinner ''Thinking...'', CallInvoke p,
                          StError (''An error occurred: '' @ str_of e @ ''. Please try again.'')]\<rparr>"
  using assms by (cases e) (simp_all add: run_Raises_Exception)

theorem invoke_Exception_caught_witness:
  "run (Raises (Exception ''timeout''))
     \<lparr>pc = L165 (Some ''news?''),
      messages = [\<lparr>role = ''user'', content = ''a''\<rparr>, \<lparr>role = ''assistant'', content = ''b''\<rparr>],
      shown = []\<rparr> =
   \<lparr>pc = Returned,
    messages = [\<lparr>role = ''user'', content = ''a''\<rparr>, \<lparr>role = ''assistant'', content = ''b''\<rparr>,
                \<lparr>role = ''user'', content = ''news?''\<rparr>,
                \<lparr>role = ''assistant'', content = ''An error occurred: timeout. Please try again.''\<rparr>],
    shown = [StChatMessage ''user'', StMarkdown ''news?'', StChatMessage ''assistant'',
             StSpinner ''Thinking...'', CallInvoke ''news?'',
             StError ''An error occurred: timeout. Please try again.'']\<rparr>"
  using invoke_Exception_caught [of "''news?''" "Exception ''timeout''"
      "[\<lparr>role = ''user'', content = ''a''\<rparr>, \<lparr>role = ''assistant'', content = ''b''\<rparr>]" "[]"]
  by simp

text \<open>
  C2, as stated, fails for a raised object that is not an instance of \<open>Exception\<close>:
  \<open>except Exception\<close> does not catch it, it leaves the handler, and the transcript has
  gained the user message but no assistant message.
\<close>

theorem invoke_BaseException_propagates_counterexample:
  "pc (run (Raises (BaseException ''SystemExit''))
         \<lparr>pc = L165 (Some ''hi''), messages = [], shown = []\<rparr>)
     = Propagated (BaseException ''SystemExit'') \<and>
   messages (run (Raises (BaseException ''SystemExit''))
         \<lparr>pc = L165 (Some ''hi''), messages = [], shown = []\<rparr>)
     = [\<lparr>role = ''user'', content = ''hi''\<rparr>]"
  by (simp add: run_Raises_BaseException)

text \<open>
  C3. As long as the key field is empty or absent, every execution ends at the
  \<open>st.stop()\<close> of line 141 (the state the spec calls AwaitingCredential): the transcript,
  the cached agent and the environment are as before, the body of \<open>setup_agent\<close> is not
  executed and \<open>agent_executor.invoke\<close> is not called.
\<close>

theorem no_key_stops_before_agent:
  assumes "\<forall>i\<in>set is. falsy (openai_api_key i)"
    and "run_session w is = (w', ss, evs)"
  shows "w' = w \<and> (\<forall>s\<in>set ss. s = StoppedNoKey) \<and>
         filter is_CallSetupAgent evs = [] \<and> filter is_CallInvoke evs = []"
  using assms(2) unfolding session_key_falsy [OF assms(1)]
  by (auto simp: filter_empty_conv)

theorem no_key_stops_before_agent_witness:
  "run_session
     \<lparr>session_state_messages = None, cache_resource = None, environ_OPENAI_API_KEY = None\<rparr>
     [\<lparr>openai_api_key = Some '''', setup_agent_raises = None,
       chat_input = Some ''hello'', invoke_outcome = Returns Map.empty\<rparr>,
      \<lparr>openai_api_key = None, setup_agent_raises = None,
       chat_input = Some ''hello'', invoke_outcome = Returns Map.empty\<rparr>]
   = (\<lparr>session_state_messages = None, cache_resource = None, environ_OPENAI_API_KEY = None\<rparr>,
      [StoppedNoKey, StoppedNoKey],
      [StInfo ''Please add your OpenAI API key in the sidebar to continue.'',
       StInfo ''Please add your OpenAI API key in the sidebar to continue.''])"
  (is "run_session ?w ?is = _")
proof -
  obtain w' ss evs where r: "run_session ?w ?is = (w', ss, evs)"
    by (cases "run_session ?w ?is") auto
  have k: "\<forall>i\<in>set ?is. falsy (openai_api_key i)"
    by (simp add: falsy_def)
  from no_key_stops_before_agent [OF k r] have "w' = ?w" and "\<forall>s\<in>set ss. s = StoppedNoKey"
    by simp_all
  moreover from r have "length ss = 2"
    and "evs = [StInfo ''Please add your OpenAI API key in the sidebar to continue.'',
                StInfo ''Please add your OpenAI API key in the sidebar to continue.'']"
    by (auto simp: run_script_def falsy_def)
  ultimately show ?thesis using r
    by (auto simp: run_script_def falsy_def)
qed

text \<open>
  C4. While a non-empty submission is handled, control reaches the call of
  \<open>agent_executor.invoke\<close> at line 177, and whenever it is there the transcript is the one
  before the submission followed by the user message of that submission, which is its
  last element.
\<close>

theorem user_message_appended_before_invoke:
  assumes "p \<noteq> []"
  shows "pc ((step oc ^^ 3) \<lparr>pc = L165 (Some p), messages = ms, shown = sh\<rparr>) = L177 p \<and>
         (\<forall>n q. pc ((step oc ^^ n) \<lparr>pc = L165 (Some p), messages = ms, shown = sh\<rparr>) = L177 q \<longrightarrow>
            q = p \<and>
            messages ((step oc ^^ n) \<lparr>pc = L165 (Some p), messages = ms, shown = sh\<rparr>)
              = ms @ [\<lparr>role = ''user'', content = p\<rparr>] \<and>
            last (messages ((step oc ^^ n) \<lparr>pc = L165 (Some p), messages = ms, shown = sh\<rparr>))
              = \<lparr>role = ''user'', content = p\<rparr>)"
proof -
  have "pc ((step oc ^^ 3) \<lparr>pc = L165 (Some p), messages = ms, shown = sh\<rparr>) = L177 p"
    using assms by (simp add: eval_nat_numeral step_def)
  moreover have "q = p \<and> messages ((step oc ^^ n) \<lparr>pc = L165 (Some p), messages = ms, shown = sh\<rparr>)
              = ms @ [\<lparr>role = ''user'', content = p\<rparr>]"
    if "pc ((step oc ^^ n) \<lparr>pc = L165 (Some p), messages = ms, shown = sh\<rparr>) = L177 q" for n q
    using handler_points [where oc = oc and n = n and p = p and ms = ms and sh = sh, OF refl] that
    by blast
  ultimately show ?thesis by simp
qed

theorem user_message_appended_before_invoke_witness:
  "pc ((step (Returns Map.empty) ^^ 3)
         \<lparr>pc = L165 (Some ''hi''), messages = [\<lparr>role = ''user'', content = ''a''\<rparr>,
            \<lparr>role = ''assistant'', content = ''b''\<rparr>], shown = []\<rparr>) = L177 ''hi'' \<and>
   last (messages ((step (Returns Map.empty) ^^ 3)
         \<lparr>pc = L165 (Some ''hi''), messages = [\<lparr>role = ''user'', content = ''a''\<rparr>,
            \<lparr>role = ''assistant'', content = ''b''\<rparr>], shown = []\<rparr>))
     = \<lparr>role = ''user'', content = ''hi''\<rparr>"
  using user_message_appended_before_invoke [of "''hi''" "Returns Map.empty"
      "[\<lparr>role = ''user'', content = ''a''\<rparr>, \<lparr>role = ''assistant'', content = ''b''\<rparr>]" "[]"]
  by blast

text \<open>
  C5. The transcript only grows at its end: the transcript before is a prefix of the
  transcript after one statement of the handler, after any number of statements, after
  the whole handler, after one execution of the script and after a whole session.
\<close>

theorem messages_append_only:
  "prefix (messages f) (messages (step oc f)) \<and>
   prefix (messages f) (messages ((step oc ^^ n) f)) \<and>
   prefix (messages f) (messages (run oc f)) \<and>
   prefix (transcript w) (transcript (fst (run_script w i))) \<and>
   prefix (transcript w) (transcript (fst (run_session w is)))"
proof -
  have "prefix (messages f) (messages ((step oc ^^ n) f))"
  proof (induction n)
    case 0
    then show ?case by simp
  next
    case (Suc n)
    then show ?case
      using step_prefix [of "(step oc ^^ n) f" oc] by (auto intro: prefix_order.trans)
  qed
  then show ?thesis
    by (simp add: step_prefix run_prefix run_script_transcript_prefix
                  run_session_transcript_prefix)
qed

theorem messages_append_only_witness:
  "prefix [\<lparr>role = ''user'', content = ''a''\<rparr>, \<lparr>role = ''assistant'', content = ''b''\<rparr>]
     (messages (run (Raises (Exception ''timeout''))
        \<lparr>pc = L165 (Some ''hi''),
         messages = [\<lparr>role = ''user'', content = ''a''\<rparr>, \<lparr>role = ''assistant'', content = ''b''\<rparr>],
         shown = []\<rparr>))"
  using messages_append_only
    [where f = "\<lparr>pc = L165 (Some ''hi''),
         messages = [\<lparr>role = ''user'', content = ''a''\<rparr>, \<lparr>role = ''assistant'', content = ''b''\<rparr>],
         shown = []\<rparr>" and oc = "Raises (Exception ''timeout'')"]
  by simp

text \<open>
  C6. With \<open>max_iterations = k\<close> the reasoning loop performs at most \<open>k\<close> rounds; the
  executor the script builds has \<open>k = 5\<close>. The loop always returns, and when the model
  never gives a final answer it returns the best-effort result after exactly 5 rounds.
\<close>

theorem executor_rounds_bounded:
  "snd (executor_loop ex tool_name model impl q) \<le> max_iterations ex \<and>
   (\<exists>ex0. setup_agent = Inr ex0 \<and>
      snd (executor_loop ex0 tool_name model impl q) \<le> 5 \<and>
      ((\<forall>sp a. model q sp \<noteq> FinalAnswer a) \<longrightarrow>
         executor_loop ex0 tool_name model impl q = (BestEffort, 5)))"
proof -
  obtain ex0 where ex0: "setup_agent = Inr ex0"
    and k: "max_iterations ex0 = 5" and t: "handle_parsing_errors ex0"
    by (simp add: setup_agent_eq)
  have "snd (executor_loop ex tool_name model impl q) \<le> max_iterations ex"
    and "snd (executor_loop ex0 tool_name model impl q) \<le> 5"
    using reasoning_loop_rounds [of "max_iterations ex" "handle_parsing_errors ex" model _ q "[]"]
      reasoning_loop_rounds [of 5 True model _ q "[]"] k t
    by (simp_all add: executor_loop_def)
  moreover have "executor_loop ex0 tool_name model impl q = (BestEffort, 5)"
    if "\<forall>sp a. model q sp \<noteq> FinalAnswer a"
    using that k t by (simp add: executor_loop_def reasoning_loop_cap)
  ultimately show ?thesis using ex0 by blast
qed

theorem executor_rounds_bounded_witness:
  "\<exists>ex0. setup_agent = Inr ex0 \<and>
     executor_loop ex0 (\<lambda>t. case t of Search \<Rightarrow> ''duckduckgo_search'' | Math \<Rightarrow> ''Calculator'')
       (\<lambda>q sp. Action ''Calculator'' ''12 * 7'') (\<lambda>t inp. ''84'') ''What is 12 * 7?''
     = (BestEffort, 5)"
  using executor_rounds_bounded
    [where tool_name = "\<lambda>t. case t of Search \<Rightarrow> ''duckduckgo_search'' | Math \<Rightarrow> ''Calculator''"
       and model = "\<lambda>q sp. Action ''Calculator'' ''12 * 7''"
       and impl = "\<lambda>t inp. ''84''" and q = "''What is 12 * 7?''"]
  by auto

text \<open>
  C7. From the start of the process on, whatever executions follow, an executor that the
  cache holds or that the call of line 148 hands to an execution has exactly two tools,
  the web-search lookup and the math-evaluation helper, in the executor and in the agent
  inside it; they are the ones \<open>load_tools\<close> gave for the two identifiers of line 68.
\<close>

theorem tool_registry_fixed:
  assumes "cache_resource w = None"
    and "run_session w is = (w', ss, evs)"
  shows "load_tools [''ddg-search'', ''llm-math''] l = Inr [Search, Math] \<and>
         (\<forall>ex. cache_resource w' = Some ex \<or> SetupAgentReturned ex \<in> set evs \<longrightarrow>
            tools ex = [Search, Math] \<and> agent_tools (agent ex) = [Search, Math] \<and>
            length (tools ex) = 2 \<and> distinct (tools ex))"
proof -
  have "tools ex = [Search, Math] \<and> agent_tools (agent ex) = [Search, Math] \<and>
        length (tools ex) = 2 \<and> distinct (tools ex)"
    if "cache_resource w' = Some ex \<or> SetupAgentReturned ex \<in> set evs" for ex
  proof -
    from that have "setup_agent = Inr ex"
    proof
      assume "cache_resource w' = Some ex"
      with session_uncached [OF assms] show ?thesis by blast
    next
      assume "SetupAgentReturned ex \<in> set evs"
      with session_uncached_returned [OF assms] show ?thesis by blast
    qed
    from setup_agent_tools [OF this] show ?thesis by simp
  qed
  then show ?thesis
    by (simp add: load_tools_two)
qed

theorem tool_registry_fixed_witness:
  "map_option tools (cache_resource (fst (run_session
     \<lparr>session_state_messages = None, cache_resource = None, environ_OPENAI_API_KEY = None\<rparr>
     [\<lparr>openai_api_key = Some ''sk-1'', setup_agent_raises = None,
       chat_input = None, invoke_outcome = Returns Map.empty\<rparr>,
      \<lparr>openai_api_key = Some ''sk-1'', setup_agent_raises = None,
       chat_input = Some ''hi'', invoke_outcome = Returns [''output'' \<mapsto> ''hello'']\<rparr>])))
   = Some [Search, Math]"
  (is "map_option tools (cache_resource (fst (run_session ?w ?is))) = _")
proof -
  obtain w' ss evs where r: "run_session ?w ?is = (w', ss, evs)"
    by (cases "run_session ?w ?is") auto
  then obtain ex where c: "cache_resource w' = Some ex"
    by (auto simp: run_script_def setup_agent_cached_def setup_agent_eq falsy_def
                   embedded_null_def Let_def)
  have n: "cache_resource ?w = None"
    by simp
  from tool_registry_fixed [OF n r] c r show ?thesis
    by simp
qed

text \<open>
  C8. In any session the body of \<open>setup_agent\<close> runs to completion at most once, every
  call of line 148 that returns hands out the same executor, and that executor is the one
  the cache holds at the end; when the cache holds an executor at the start, it is that
  one and the body is never executed. In a single execution with a usable key, the call
  of line 148 returns an executor whenever the cache holds one or the body does not raise:
  with an empty cache it is the executor the body built, which is stored; with a filled
  cache it is the stored executor, unchanged, and the body is not executed.
\<close>

theorem executor_constructed_once:
  assumes "run_session w is = (w', ss, evs)"
  shows "length (filter (\<lambda>e. e = CallSetupAgent None) evs) \<le> 1 \<and>
         (\<forall>ex ex'. SetupAgentReturned ex \<in> set evs \<and> SetupAgentReturned ex' \<in> set evs \<longrightarrow>
            ex = ex') \<and>
         (\<forall>ex. SetupAgentReturned ex \<in> set evs \<longrightarrow> cache_resource w' = Some ex) \<and>
         (\<forall>ex. cache_resource w = Some ex \<longrightarrow>
            cache_resource w' = Some ex \<and> filter is_CallSetupAgent evs = [] \<and>
            (\<forall>ex'. SetupAgentReturned ex' \<in> set evs \<longrightarrow> ex' = ex)) \<and>
         (\<forall>i. \<not> falsy (openai_api_key i) \<and> \<not> embedded_null (openai_api_key i) \<and>
              (cache_resource w \<noteq> None \<or> setup_agent_raises i = None) \<longrightarrow>
            (\<exists>ex. filter is_SetupAgentReturned (snd (snd (run_script w i))) =
                    [SetupAgentReturned ex] \<and>
                  cache_resource (fst (run_script w i)) = Some ex \<and>
                  (cache_resource w = None \<longrightarrow>
                     setup_agent = Inr ex \<and>
                     filter is_CallSetupAgent (snd (snd (run_script w i))) =
                       [CallSetupAgent None]) \<and>
                  (cache_resource w \<noteq> None \<longrightarrow>
                     cache_resource w = Some ex \<and>
                     filter is_CallSetupAgent (snd (snd (run_script w i))) = [])))"
proof -
  have session: "length (filter (\<lambda>e. e = CallSetupAgent None) evs) \<le> 1 \<and>
         (\<forall>ex ex'. SetupAgentReturned ex \<in> set evs \<and> SetupAgentReturned ex' \<in> set evs \<longrightarrow>
            ex = ex') \<and>
         (\<forall>ex. SetupAgentReturned ex \<in> set evs \<longrightarrow> cache_resource w' = Some ex)"
  proof (cases "cache_resource w")
    case None
    have "length (filter (\<lambda>e. e = CallSetupAgent None) evs) \<le> 1"
      using session_uncached [OF None assms] by blast
    moreover have "ex = ex'"
      if "SetupAgentReturned ex \<in> set evs" and "SetupAgentReturned ex' \<in> set evs" for ex ex'
      using session_uncached_returned [OF None assms that(1)]
        session_uncached_returned [OF None assms that(2)] by simp
    moreover have "cache_resource w' = Some ex" if "SetupAgentReturned ex \<in> set evs" for ex
      using session_uncached_returned [OF None assms that] by simp
    ultimately show ?thesis by blast
  next
    case (Some ex0)
    have "filter (\<lambda>e. e = CallSetupAgent None) evs = []"
      using session_cached [OF Some assms] by (simp add: no_setup_no_construction)
    then have "length (filter (\<lambda>e. e = CallSetupAgent None) evs) \<le> 1"
      by simp
    moreover have "ex = ex'"
      if "SetupAgentReturned ex \<in> set evs" and "SetupAgentReturned ex' \<in> set evs" for ex ex'
      using session_cached_returned [OF Some assms that(1)]
        session_cached_returned [OF Some assms that(2)] by simp
    moreover have "cache_resource w' = Some ex" if "SetupAgentReturned ex \<in> set evs" for ex
      using session_cached_returned [OF Some assms that] session_cached [OF Some assms] by simp
    ultimately show ?thesis by blast
  qed
  have cached: "cache_resource w' = Some ex \<and> filter is_CallSetupAgent evs = [] \<and>
            (\<forall>ex'. SetupAgentReturned ex' \<in> set evs \<longrightarrow> ex' = ex)"
    if "cache_resource w = Some ex" for ex
    using session_cached [OF that assms] session_cached_returned [OF that assms] by blast
  from session cached run_script_receives [of _ w] show ?thesis
    by blast
qed

theorem executor_constructed_once_witness:
  "filter (\<lambda>e. is_CallSetupAgent e \<or> is_SetupAgentReturned e) (snd (snd (run_session
     \<lparr>session_state_messages = None, cache_resource = None, environ_OPENAI_API_KEY = None\<rparr>
     [\<lparr>openai_api_key = Some ''sk-1'', setup_agent_raises = None,
       chat_input = Some ''hi'', invoke_outcome = Returns [''output'' \<mapsto> ''hello'']\<rparr>,
      \<lparr>openai_api_key = Some ''sk-1'', setup_agent_raises = Some (Exception ''no key''),
       chat_input = Some ''again'', invoke_outcome = Raises (Exception ''timeout'')\<rparr>])))
   = [CallSetupAgent None,
      SetupAgentReturned (the (cache_resource (fst (run_session
     \<lparr>session_state_messages = None, cache_resource = None, environ_OPENAI_API_KEY = None\<rparr>
     [\<lparr>openai_api_key = Some ''sk-1'', setup_agent_raises = None,
       chat_input = Some ''hi'', invoke_outcome = Returns [''output'' \<mapsto> ''hello'']\<rparr>,
      \<lparr>openai_api_key = Some ''sk-1'', setup_agent_raises = Some (Exception ''no key''),
       chat_input = Some ''again'', invoke_outcome = Raises (Exception ''timeout'')\<rparr>])))),
      SetupAgentReturned (the (cache_resource (fst (run_session
     \<lparr>session_state_messages = None, cache_resource = None, environ_OPENAI_API_KEY = None\<rparr>
     [\<lparr>openai_api_key = Some ''sk-1'', setup_agent_raises = None,
       chat_input = Some ''hi'', invoke_outcome = Returns [''output'' \<mapsto> ''hello'']\<rparr>,
      \<lparr>openai_api_key = Some ''sk-1'', setup_agent_raises = Some (Exception ''no key''),
       chat_input = Some ''again'', invoke_outcome = Raises (Exception ''timeout'')\<rparr>]))))]"
  (is "filter ?P (snd (snd (run_session ?w ?is))) = _")
proof -
  obtain w' ss evs where r: "run_session ?w ?is = (w', ss, evs)"
    by (cases "run_session ?w ?is") auto
  then obtain ex ex' where e: "filter ?P evs = [CallSetupAgent None, SetupAgentReturned ex,
      SetupAgentReturned ex']"
    by (auto simp: run_script_def setup_agent_cached_def setup_agent_eq falsy_def
                   embedded_null_def Let_def run_Returns run_Raises_Exception
                   display_history_def)
  have "SetupAgentReturned ex \<in> set (filter ?P evs)"
    and "SetupAgentReturned ex' \<in> set (filter ?P evs)"
    unfolding e by simp_all
  then have m: "SetupAgentReturned ex \<in> set evs" "SetupAgentReturned ex' \<in> set evs"
    by simp_all
  from executor_constructed_once [OF r] m
  have "ex' = ex" and "cache_resource w' = Some ex"
    by blast+
  with e r show ?thesis
    by simp
qed

text \<open>
  C9. When \<open>agent_executor.invoke\<close> returns a dict without the key \<open>"output"\<close>, the
  assistant message appended after the user message has the content
  "Sorry, I encountered an error."; otherwise its content is the value under \<open>"output"\<close>.
\<close>

theorem assistant_message_is_output_or_fallback:
  assumes "p \<noteq> []"
  shows "(r ''output'' = None \<longrightarrow>
            messages (run (Returns r) \<lparr>pc = L165 (Some p), messages = ms, shown = sh\<rparr>) =
              ms @ [\<lparr>role = ''user'', content = p\<rparr>,
                    \<lparr>role = ''assistant'', content = ''Sorry, I encountered an error.''\<rparr>]) \<and>
         (\<forall>a. r ''output'' = Some a \<longrightarrow>
            messages (run (Returns r) \<lparr>pc = L165 (Some p), messages = ms, shown = sh\<rparr>) =
              ms @ [\<lparr>role = ''user'', content = p\<rparr>,
                    \<lparr>role = ''assistant'', content = a\<rparr>])"
  using assms by (simp add: run_Returns)

theorem assistant_message_is_output_or_fallback_witness:
  "messages (run (Returns [''input'' \<mapsto> ''q'']) \<lparr>pc = L165 (Some ''q''), messages = [], shown = []\<rparr>) =
     [\<lparr>role = ''user'', content = ''q''\<rparr>,
      \<lparr>role = ''assistant'', content = ''Sorry, I encountered an error.''\<rparr>] \<and>
   messages (run (Returns [''input'' \<mapsto> ''q'', ''output'' \<mapsto> ''84''])
       \<lparr>pc = L165 (Some ''q''), messages = [], shown = []\<rparr>) =
     [\<lparr>role = ''user'', content = ''q''\<rparr>,
      \<lparr>role = ''assistant'', content = ''84''\<rparr>]"
  using assistant_message_is_output_or_fallback [of "''q''" "[''input'' \<mapsto> ''q'']" "[]" "[]"]
    assistant_message_is_output_or_fallback
      [of "''q''" "[''input'' \<mapsto> ''q'', ''output'' \<mapsto> ''84'']" "[]" "[]"]
  by simp

text \<open>
  C10. When the chat field returns a falsy value, the first statement of the handler
  leaves it: transcript and output are as before, and in the execution as a whole the
  transcript is unchanged and \<open>agent_executor.invoke\<close> is not called.
\<close>

theorem falsy_chat_input_skips_handler:
  assumes "falsy v"
  shows "step oc \<lparr>pc = L165 v, messages = ms, shown = sh\<rparr>
           = \<lparr>pc = Returned, messages = ms, shown = sh\<rparr> \<and>
         run oc \<lparr>pc = L165 v, messages = ms, shown = sh\<rparr>
           = \<lparr>pc = Returned, messages = ms, shown = sh\<rparr> \<and>
         (chat_input i = v \<longrightarrow>
            transcript (fst (run_script w i)) = transcript w \<and>
            filter is_CallInvoke (snd (snd (run_script w i))) = [])"
proof -
  have "step oc \<lparr>pc = L165 v, messages = ms, shown = sh\<rparr>
           = \<lparr>pc = Returned, messages = ms, shown = sh\<rparr>"
    using assms by (cases v) (simp_all add: falsy_def step_def)
  moreover have "run oc \<lparr>pc = L165 v, messages = ms, shown = sh\<rparr>
           = \<lparr>pc = Returned, messages = ms, shown = sh\<rparr>"
    using assms by (rule run_falsy)
  moreover have "transcript (fst (run_script w i)) = transcript w \<and>
            filter is_CallInvoke (snd (snd (run_script w i))) = []" if "chat_input i = v"
    using run_script_falsy_chat [of i w] that assms by simp
  ultimately show ?thesis by simp
qed

theorem falsy_chat_input_skips_handler_witness:
  "run (Returns [''output'' \<mapsto> ''x''])
     \<lparr>pc = L165 (Some ''''), messages = [\<lparr>role = ''user'', content = ''a''\<rparr>], shown = []\<rparr>
   = \<lparr>pc = Returned, messages = [\<lparr>role = ''user'', content = ''a''\<rparr>], shown = []\<rparr> \<and>
   run (Returns [''output'' \<mapsto> ''x''])
     \<lparr>pc = L165 None, messages = [\<lparr>role = ''user'', content = ''a''\<rparr>], shown = []\<rparr>
   = \<lparr>pc = Returned, messages = [\<lparr>role = ''user'', content = ''a''\<rparr>], shown = []\<rparr>"
  using falsy_chat_input_skips_handler [of "Some ''''" "Returns [''output'' \<mapsto> ''x'']"
      "[\<lparr>role = ''user'', content = ''a''\<rparr>]" "[]"]
    falsy_chat_input_skips_handler [of None "Returns [''output'' \<mapsto> ''x'']"
      "[\<lparr>role = ''user'', content = ''a''\<rparr>]" "[]"]
  by (simp add: falsy_def)

end
